theory Spec2Isabelle
  imports
    Complex_Main
    "HOL-Library.Char_ord"
    "HOL-Library.List_Lexorder"
    "HOL-Library.Sublist"
    "HOL-Library.AList"
    "HOL-Library.While_Combinator"
begin

section \<open>Strings\<close>

text \<open>
  JavaScript strings are modelled as \<^typ>\<open>string\<close>. The character classes and the
  case mappings below are those of JavaScript and of SQLite on the ASCII range;
  characters outside it are left alone by the case mappings, and are neither
  white space nor word characters. The order on strings is the byte-wise
  lexicographic one, which is SQLite's \<^verbatim>\<open>BINARY\<close> collation (used by
  \<^verbatim>\<open>ORDER BY code\<close> and by the comparisons of dates stored as text).
\<close>

definition toUpperChar :: "char \<Rightarrow> char" where
  "toUpperChar c =
     (if CHR ''a'' \<le> c \<and> c \<le> CHR ''z'' then char_of (of_char c - (32::nat)) else c)"

definition toLowerChar :: "char \<Rightarrow> char" where
  "toLowerChar c =
     (if CHR ''A'' \<le> c \<and> c \<le> CHR ''Z'' then char_of (of_char c + (32::nat)) else c)"

text \<open>\<^verbatim>\<open>String.prototype.toUpperCase\<close> and \<^verbatim>\<open>toLowerCase\<close>.\<close>

definition toUpperCase :: "string \<Rightarrow> string" where
  "toUpperCase s = map toUpperChar s"

definition toLowerCase :: "string \<Rightarrow> string" where
  "toLowerCase s = map toLowerChar s"

text \<open>The white space of \<^verbatim>\<open>trim\<close> and of the regular expression class \<^verbatim>\<open>\s\<close>.\<close>

definition isSpace :: "char \<Rightarrow> bool" where
  "isSpace c = (c = CHR '' '' \<or> c = CHR 0x09 \<or> c = CHR 0x0A \<or> c = CHR 0x0B
                \<or> c = CHR 0x0C \<or> c = CHR 0x0D)"

text \<open>The regular expression class \<^verbatim>\<open>\w\<close>: letters, digits and the underscore.\<close>

definition isWordChar :: "char \<Rightarrow> bool" where
  "isWordChar c = ((CHR ''a'' \<le> c \<and> c \<le> CHR ''z'') \<or> (CHR ''A'' \<le> c \<and> c \<le> CHR ''Z'')
                   \<or> (CHR ''0'' \<le> c \<and> c \<le> CHR ''9'') \<or> c = CHR ''_'')"

text \<open>\<^verbatim>\<open>String.prototype.trim\<close>.\<close>

definition trim :: "string \<Rightarrow> string" where
  "trim s = rev (dropWhile isSpace (rev (dropWhile isSpace s)))"

text \<open>\<^verbatim>\<open>s.startsWith(t)\<close>.\<close>

fun startsWith :: "string \<Rightarrow> string \<Rightarrow> bool" where
  "startsWith s [] = True"
| "startsWith [] (t # ts) = False"
| "startsWith (c # cs) (t # ts) = (c = t \<and> startsWith cs ts)"

text \<open>\<^verbatim>\<open>s.includes(t)\<close>: \<open>t\<close> occurs in \<open>s\<close> as a contiguous substring.\<close>

fun includesStr :: "string \<Rightarrow> string \<Rightarrow> bool" where
  "includesStr [] t = (t = [])"
| "includesStr (c # cs) t = (startsWith (c # cs) t \<or> includesStr cs t)"

text \<open>\<^verbatim>\<open>s.endsWith('.')\<close>.\<close>

definition endsWithDot :: "string \<Rightarrow> bool" where
  "endsWithDot s = (s \<noteq> [] \<and> last s = CHR ''.'')"

text \<open>
  \<^verbatim>\<open>s.lastIndexOf(ch)\<close>: the index of the last occurrence of the character;
  \<open>None\<close> stands for the result \<open>-1\<close>.
\<close>

fun lastIndexOf :: "string \<Rightarrow> char \<Rightarrow> nat option" where
  "lastIndexOf [] ch = None"
| "lastIndexOf (c # cs) ch =
     (case lastIndexOf cs ch of
        Some i \<Rightarrow> Some (Suc i)
      | None \<Rightarrow> (if c = ch then Some 0 else None))"

text \<open>
  \<^verbatim>\<open>s.replace(pat, rep)\<close> with a string pattern: only the first occurrence of
  \<open>pat\<close> is replaced. (The replacement strings of this program contain no \<^verbatim>\<open>$\<close>.)
\<close>

fun replaceFirst :: "string \<Rightarrow> string \<Rightarrow> string \<Rightarrow> string" where
  "replaceFirst [] pat rep = (if pat = [] then rep else [])"
| "replaceFirst (c # cs) pat rep =
     (if startsWith (c # cs) pat then rep @ drop (length pat) (c # cs)
      else c # replaceFirst cs pat rep)"

text \<open>
  SQLite's \<^verbatim>\<open>LIKE\<close> without an escape character: \<^verbatim>\<open>%\<close> matches any sequence
  of characters, \<^verbatim>\<open>_\<close> matches exactly one character, and every other
  character matches itself up to ASCII case. The first argument is the pattern.
\<close>

fun sqlLike :: "string \<Rightarrow> string \<Rightarrow> bool" where
  "sqlLike [] s = (s = [])"
| "sqlLike (p # ps) [] = (p = CHR ''%'' \<and> sqlLike ps [])"
| "sqlLike (p # ps) (c # cs) =
     (if p = CHR ''%'' then sqlLike ps (c # cs) \<or> sqlLike (p # ps) cs
      else (p = CHR ''_'' \<or> toLowerChar p = toLowerChar c) \<and> sqlLike ps cs)"

section \<open>The data model\<close>

text \<open>The interface \<^verbatim>\<open>ICD10Code\<close> of \<^verbatim>\<open>types/icd10.ts\<close>: a row of the table \<^verbatim>\<open>icd10_codes\<close>.\<close>

record ICD10Code =
  code :: string
  description :: string
  category :: string
  subcategory :: "string option"
  chapter_code :: string
  chapter_name :: string
  is_billable :: bool
  is_valid_primary :: bool
  effective_date :: "string option"
  end_date :: "string option"
  revision_year :: int

text \<open>
  The table \<^verbatim>\<open>icd10_codes\<close> is the list of its rows. Its only writer,
  \<^verbatim>\<open>insertCode\<close>, stores the code in upper case, and \<^verbatim>\<open>code\<close> is the primary key.
\<close>

type_synonym store = "ICD10Code list"

definition canonicalIds :: "store \<Rightarrow> bool" where
  "canonicalIds st = list_all (\<lambda>r. toUpperCase (code r) = code r) st"

definition uniqueIds :: "store \<Rightarrow> bool" where
  "uniqueIds st = distinct (map code st)"

datatype HierarchyDirection = Children | Parents | Siblings

section \<open>Hierarchy navigation: \<^verbatim>\<open>ICD10Database.getHierarchy\<close>\<close>

text \<open>\<^verbatim>\<open>SELECT * FROM icd10_codes WHERE code = ?\<close>, first row.\<close>

definition selectByCode :: "store \<Rightarrow> string \<Rightarrow> ICD10Code option" where
  "selectByCode st c = find (\<lambda>r. code r = c) st"

text \<open>\<^verbatim>\<open>SELECT * FROM icd10_codes WHERE code LIKE ? AND code != ? ORDER BY code\<close>.\<close>

definition selectLike :: "store \<Rightarrow> string \<Rightarrow> string \<Rightarrow> ICD10Code list" where
  "selectLike st pat excl = sort_key code (filter (\<lambda>r. sqlLike pat (code r) \<and> code r \<noteq> excl) st)"

text \<open>
  \<^verbatim>\<open>SELECT * FROM icd10_codes WHERE code LIKE ? AND LENGTH(code) = ? AND code != ? ORDER BY code\<close>.
\<close>

definition selectLikeLength :: "store \<Rightarrow> string \<Rightarrow> nat \<Rightarrow> string \<Rightarrow> ICD10Code list" where
  "selectLikeLength st pat n excl =
     sort_key code (filter (\<lambda>r. sqlLike pat (code r) \<and> length (code r) = n \<and> code r \<noteq> excl) st)"

text \<open>
  One strip of the parents loop (the \<^verbatim>\<open>if\<close> chain at the top of its body). The test
  \<^verbatim>\<open>current.includes('.')\<close> and the index \<^verbatim>\<open>current.lastIndexOf('.')\<close> are one \<open>case\<close>
  on \<open>lastIndexOf\<close>, which is \<open>None\<close> exactly when the string has no dot; the same
  holds for the siblings branch of \<^verbatim>\<open>getHierarchy\<close>.
\<close>

definition stripRight :: "string \<Rightarrow> string" where
  "stripRight current =
     (if endsWithDot current then butlast current
      else (case lastIndexOf current (CHR ''.'') of
              Some lastDotIndex \<Rightarrow> take lastDotIndex current
            | None \<Rightarrow> butlast current))"

text \<open>The state of the parents loop: the variables \<^verbatim>\<open>current\<close> and \<^verbatim>\<open>parents\<close>.\<close>

type_synonym parentsState = "string \<times> ICD10Code list"

definition parentsGuard :: "nat \<Rightarrow> parentsState \<Rightarrow> bool" where
  "parentsGuard maxDepth s = (length (fst s) > 1 \<and> length (snd s) < maxDepth)"

definition parentsBody :: "store \<Rightarrow> parentsState \<Rightarrow> parentsState" where
  "parentsBody st s =
     (let current = stripRight (fst s) in
      if current \<noteq> [] then
        (case selectByCode st current of
           Some parent \<Rightarrow> (current, snd s @ [parent])
         | None \<Rightarrow> (current, snd s))
      else (current, snd s))"

text \<open>
  The loop \<^verbatim>\<open>while (current.length > 1 && parents.length < maxDepth)\<close>, as a
  recursive function of its state.
\<close>

function parentsLoop :: "store \<Rightarrow> nat \<Rightarrow> parentsState \<Rightarrow> parentsState" where
  "parentsLoop st maxDepth s =
     (if parentsGuard maxDepth s then parentsLoop st maxDepth (parentsBody st s) else s)"
  by pat_completeness auto
termination
proof (relation "measure (\<lambda>(st, maxDepth, s). length (fst s))")
  show "wf (measure (\<lambda>(st, maxDepth, s). length (fst s)))"
    by simp
next
  fix st :: store and maxDepth :: nat and s :: parentsState
  assume g: "parentsGuard maxDepth s"
  then have ne: "fst s \<noteq> []"
    by (auto simp: parentsGuard_def)
  have idx: "\<And>i. lastIndexOf (fst s) (CHR ''.'') = Some i \<Longrightarrow> \<not> endsWithDot (fst s)
      \<Longrightarrow> i < length (fst s)"
  proof -
    fix i
    have "\<And>j. lastIndexOf xs (CHR ''.'') = Some j \<Longrightarrow> j < length xs" for xs
      by (induction xs) (auto split: option.splits if_splits)
    then show "lastIndexOf (fst s) (CHR ''.'') = Some i \<Longrightarrow> \<not> endsWithDot (fst s)
      \<Longrightarrow> i < length (fst s)"
      by blast
  qed
  have "length (stripRight (fst s)) < length (fst s)"
    using ne idx by (auto simp: stripRight_def split: option.splits)
  then have "length (fst (parentsBody st s)) < length (fst s)"
    by (auto simp: parentsBody_def Let_def split: option.splits)
  then show "((st, maxDepth, parentsBody st s), (st, maxDepth, s))
      \<in> measure (\<lambda>(st, maxDepth, s). length (fst s))"
    by simp
qed

declare parentsLoop.simps [simp del]

text \<open>
  \<^verbatim>\<open>getHierarchy(code, direction, maxDepth)\<close>. The depth is a natural number: the
  request schema admits the integers from 1 to 5, and the default is 2.
\<close>

definition getHierarchy :: "store \<Rightarrow> string \<Rightarrow> HierarchyDirection \<Rightarrow> nat \<Rightarrow> ICD10Code list" where
  "getHierarchy st c direction maxDepth =
     (let normalizedCode = toUpperCase c in
      case direction of
        Children \<Rightarrow> selectLike st (normalizedCode @ ''%'') normalizedCode
      | Parents \<Rightarrow> snd (parentsLoop st maxDepth (normalizedCode, []))
      | Siblings \<Rightarrow>
          (case lastIndexOf normalizedCode (CHR ''.'') of
             Some lastDotIndex \<Rightarrow>
               (let parent = take lastDotIndex normalizedCode
                in selectLike st (parent @ ''.%'') normalizedCode)
           | None \<Rightarrow>
               (let parent = (if length normalizedCode > 1 then butlast normalizedCode
                              else normalizedCode)
                in selectLikeLength st (parent @ ''%'') (length normalizedCode) normalizedCode)))"

text \<open>
  \<^verbatim>\<open>insertCode\<close>: \<^verbatim>\<open>INSERT OR REPLACE\<close> on the primary key, with the code in
  upper case.
\<close>

definition insertCode :: "store \<Rightarrow> ICD10Code \<Rightarrow> store" where
  "insertCode st codeData =
     (let c = toUpperCase (code codeData)
      in filter (\<lambda>r. code r \<noteq> c) st @ [codeData\<lparr>code := c\<rparr>])"

section \<open>Exact lookup: \<^verbatim>\<open>ICD10Database.getCode\<close>\<close>

text \<open>
  The clause
  \<^verbatim>\<open>(effective_date IS NULL OR effective_date <= ?) AND (end_date IS NULL OR end_date > ?)\<close>
  that the three queries append, both parameters bound to the requested date.
\<close>

definition dateClause :: "string \<Rightarrow> ICD10Code \<Rightarrow> bool" where
  "dateClause d r =
     ((case effective_date r of None \<Rightarrow> True | Some e \<Rightarrow> e \<le> d)
      \<and> (case end_date r of None \<Rightarrow> True | Some e \<Rightarrow> d < e))"

text \<open>
  The guard \<^verbatim>\<open>if (effectiveDate)\<close> around that clause: an optional string is
  falsy when it is absent or empty.
\<close>

definition dateFilter :: "string option \<Rightarrow> ICD10Code \<Rightarrow> bool" where
  "dateFilter effectiveDate r =
     (case effectiveDate of
        None \<Rightarrow> True
      | Some d \<Rightarrow> (if d = [] then True else dateClause d r))"

definition getCode :: "store \<Rightarrow> string \<Rightarrow> string option \<Rightarrow> ICD10Code option" where
  "getCode st c effectiveDate =
     find (\<lambda>r. code r = toUpperCase c \<and> dateFilter effectiveDate r) st"

text \<open>
  The specification's wording of the validity window: a code is in effect at date \<open>D\<close>
  iff its effective date is null or at most \<open>D\<close>, and its end date is null or after \<open>D\<close>.
\<close>

definition inEffect :: "ICD10Code \<Rightarrow> string \<Rightarrow> bool" where
  "inEffect r D =
     ((effective_date r = None \<or> the (effective_date r) \<le> D)
      \<and> (end_date r = None \<or> D < the (end_date r)))"

section \<open>Query expansion: \<^verbatim>\<open>ICD10Database.enhanceSearchQuery\<close>\<close>

text \<open>
  Rows of the tables \<^verbatim>\<open>search_patterns\<close> and \<^verbatim>\<open>medical_synonyms\<close> (whose
  columns \<^verbatim>\<open>term\<close> and \<^verbatim>\<open>context\<close> are \<open>term_s\<close> and \<open>context_s\<close> here).
\<close>

record SearchPattern =
  pattern :: string
  expansion :: string
  priority :: int

record MedicalSynonym =
  term_s :: string
  synonym :: string
  weight :: rat
  context_s :: "string option"

text \<open>
  \<^verbatim>\<open>SELECT pattern, expansion FROM search_patterns ORDER BY priority DESC\<close>. Rows of
  equal priority come in the order of the table.
\<close>

definition selectPatterns :: "SearchPattern list \<Rightarrow> SearchPattern list" where
  "selectPatterns tbl = sort_key (\<lambda>p. - priority p) tbl"

text \<open>
  \<^verbatim>\<open>SELECT synonym, weight FROM medical_synonyms WHERE term = ? ORDER BY weight DESC\<close>.
\<close>

definition selectSynonyms :: "MedicalSynonym list \<Rightarrow> string \<Rightarrow> MedicalSynonym list" where
  "selectSynonyms tbl w = sort_key (\<lambda>s. - weight s) (filter (\<lambda>s. term_s s = w) tbl)"

definition bodyParts :: "string list" where
  "bodyParts = [''arm'', ''leg'', ''bone'', ''head'', ''chest'', ''back'', ''neck'', ''shoulder'',
                ''knee'', ''hip'', ''ankle'', ''wrist'', ''elbow'']"

text \<open>The inner loop over the body parts; \<open>Some\<close> is its \<^verbatim>\<open>return\<close>.\<close>

fun matchBodyParts :: "string \<Rightarrow> string \<Rightarrow> string \<Rightarrow> string list \<Rightarrow> string option" where
  "matchBodyParts lowerQuery pat expn [] = None"
| "matchBodyParts lowerQuery pat expn (bodyPart # rest) =
     (let concretePattern = replaceFirst pat ''{BODYPART}'' bodyPart in
      if includesStr lowerQuery (toLowerCase concretePattern)
      then Some (replaceFirst expn ''{BODYPART}'' bodyPart)
      else matchBodyParts lowerQuery pat expn rest)"

text \<open>The outer loop over the patterns, with the test for patterns without a brace.\<close>

fun matchPatterns :: "string \<Rightarrow> SearchPattern list \<Rightarrow> string option" where
  "matchPatterns lowerQuery [] = None"
| "matchPatterns lowerQuery (p # ps) =
     (case matchBodyParts lowerQuery (pattern p) (expansion p) bodyParts of
        Some r \<Rightarrow> Some r
      | None \<Rightarrow>
          (if \<not> includesStr (pattern p) ''{'' \<and> includesStr lowerQuery (toLowerCase (pattern p))
           then Some (expansion p)
           else matchPatterns lowerQuery ps))"

text \<open>\<^verbatim>\<open>s.split(/\s+/)\<close>: the pieces between the maximal runs of white space.\<close>

function splitWhitespace :: "string \<Rightarrow> string list" where
  "splitWhitespace s =
     (let tok = takeWhile (\<lambda>c. \<not> isSpace c) s;
          rest = dropWhile (\<lambda>c. \<not> isSpace c) s
      in if rest = [] then [tok] else tok # splitWhitespace (dropWhile isSpace rest))"
  by pat_completeness auto
termination
proof (relation "measure length")
  show "wf (measure length)"
    by simp
next
  fix s :: string and tok rest :: string
  assume r: "rest = dropWhile (\<lambda>c. \<not> isSpace c) s" and ne: "rest \<noteq> []"
  from ne r have "isSpace (hd rest)"
    using hd_dropWhile [of "\<lambda>c. \<not> isSpace c" s] by simp
  with ne have "length (dropWhile isSpace rest) < length rest"
    by (cases rest) (auto intro: le_imp_less_Suc length_dropWhile_le)
  moreover have "length rest \<le> length s"
    using r by (simp add: length_dropWhile_le)
  ultimately show "(dropWhile isSpace rest, s) \<in> measure length"
    by simp
qed

declare splitWhitespace.simps [simp del]

text \<open>\<^verbatim>\<open>Set.prototype.add\<close> on a set kept in insertion order.\<close>

definition setAdd :: "string list \<Rightarrow> string \<Rightarrow> string list" where
  "setAdd xs x = (if x \<in> set xs then xs else xs @ [x])"

text \<open>The loop over the words of the query; the accumulator is \<^verbatim>\<open>expandedTerms\<close>.\<close>

fun expandWords :: "MedicalSynonym list \<Rightarrow> string list \<Rightarrow> string list \<Rightarrow> string list" where
  "expandWords syn [] expandedTerms = expandedTerms"
| "expandWords syn (word # ws) expandedTerms =
     (let cleanWord = filter isWordChar word in
      if length cleanWord < 3 then expandWords syn ws expandedTerms
      else expandWords syn ws
             (fold (\<lambda>s acc. setAdd acc (synonym s)) (selectSynonyms syn cleanWord)
                (setAdd expandedTerms cleanWord)))"

text \<open>\<^verbatim>\<open>Array.prototype.join(' OR ')\<close>.\<close>

fun joinOr :: "string list \<Rightarrow> string" where
  "joinOr [] = []"
| "joinOr [x] = x"
| "joinOr (x # y # ys) = x @ '' OR '' @ joinOr (y # ys)"

definition enhanceSearchQuery ::
  "SearchPattern list \<Rightarrow> MedicalSynonym list \<Rightarrow> string \<Rightarrow> string" where
  "enhanceSearchQuery patterns syn query =
     (let lowerQuery = trim (toLowerCase query) in
      case matchPatterns lowerQuery (selectPatterns patterns) of
        Some r \<Rightarrow> r
      | None \<Rightarrow> joinOr (expandWords syn (splitWhitespace lowerQuery) []))"

text \<open>
  The rows that \<^verbatim>\<open>initializeMedicalSynonyms\<close> writes into the two tables, in its
  order. The weights are of SQL type \<^verbatim>\<open>REAL\<close>; they are rationals here, which
  compare in the same way.
\<close>

definition seedPatterns :: "SearchPattern list" where
  "seedPatterns =
     [\<lparr>pattern = ''broken {BODYPART}'', expansion = ''fracture {BODYPART}'', priority = 10\<rparr>,
      \<lparr>pattern = ''{BODYPART} fracture'', expansion = ''fracture {BODYPART}'', priority = 9\<rparr>,
      \<lparr>pattern = ''pain in {BODYPART}'', expansion = ''{BODYPART} pain OR {BODYPART} algia'',
         priority = 8\<rparr>,
      \<lparr>pattern = ''{BODYPART} pain'', expansion = ''{BODYPART} algia OR painful {BODYPART}'',
         priority = 8\<rparr>,
      \<lparr>pattern = ''can'' @ [CHR 0x27] @ ''t breathe'',
         expansion = ''dyspnea OR respiratory distress OR shortness of breath'', priority = 10\<rparr>,
      \<lparr>pattern = ''trouble breathing'', expansion = ''dyspnea OR respiratory distress'',
         priority = 9\<rparr>,
      \<lparr>pattern = ''chest pain'', expansion = ''angina OR thoracic pain OR cardiac pain'',
         priority = 9\<rparr>]"

definition seedSynonyms :: "MedicalSynonym list" where
  "seedSynonyms =
     [\<lparr>term_s = ''broken'', synonym = ''fracture'', weight = 1, context_s = Some ''injury''\<rparr>,
      \<lparr>term_s = ''broken'', synonym = ''fractured'', weight = 9 / 10, context_s = Some ''injury''\<rparr>,
      \<lparr>term_s = ''heart attack'', synonym = ''myocardial infarction'', weight = 1, context_s = Some ''cardiac''\<rparr>,
      \<lparr>term_s = ''heart attack'', synonym = ''MI'', weight = 8 / 10, context_s = Some ''cardiac''\<rparr>,
      \<lparr>term_s = ''heart attack'', synonym = ''cardiac arrest'', weight = 7 / 10, context_s = Some ''cardiac''\<rparr>,
      \<lparr>term_s = ''stroke'', synonym = ''cerebrovascular accident'', weight = 1, context_s = Some ''neurological''\<rparr>,
      \<lparr>term_s = ''stroke'', synonym = ''CVA'', weight = 9 / 10, context_s = Some ''neurological''\<rparr>,
      \<lparr>term_s = ''high blood pressure'', synonym = ''hypertension'', weight = 1, context_s = Some ''cardiovascular''\<rparr>,
      \<lparr>term_s = ''low blood pressure'', synonym = ''hypotension'', weight = 1, context_s = Some ''cardiovascular''\<rparr>,
      \<lparr>term_s = ''sugar'', synonym = ''diabetes'', weight = 8 / 10, context_s = Some ''endocrine''\<rparr>,
      \<lparr>term_s = ''sugar'', synonym = ''glucose'', weight = 7 / 10, context_s = Some ''endocrine''\<rparr>,
      \<lparr>term_s = ''kidney'', synonym = ''renal'', weight = 1, context_s = Some ''anatomy''\<rparr>,
      \<lparr>term_s = ''kidney'', synonym = ''nephro'', weight = 9 / 10, context_s = Some ''anatomy''\<rparr>,
      \<lparr>term_s = ''liver'', synonym = ''hepatic'', weight = 1, context_s = Some ''anatomy''\<rparr>,
      \<lparr>term_s = ''liver'', synonym = ''hepato'', weight = 9 / 10, context_s = Some ''anatomy''\<rparr>,
      \<lparr>term_s = ''lung'', synonym = ''pulmonary'', weight = 1, context_s = Some ''anatomy''\<rparr>,
      \<lparr>term_s = ''lung'', synonym = ''pneumo'', weight = 9 / 10, context_s = Some ''anatomy''\<rparr>,
      \<lparr>term_s = ''brain'', synonym = ''cerebral'', weight = 1, context_s = Some ''anatomy''\<rparr>,
      \<lparr>term_s = ''brain'', synonym = ''cranial'', weight = 9 / 10, context_s = Some ''anatomy''\<rparr>,
      \<lparr>term_s = ''stomach'', synonym = ''gastric'', weight = 1, context_s = Some ''anatomy''\<rparr>,
      \<lparr>term_s = ''stomach'', synonym = ''gastro'', weight = 9 / 10, context_s = Some ''anatomy''\<rparr>,
      \<lparr>term_s = ''pain'', synonym = ''algia'', weight = 9 / 10, context_s = Some ''symptom''\<rparr>,
      \<lparr>term_s = ''pain'', synonym = ''ache'', weight = 8 / 10, context_s = Some ''symptom''\<rparr>,
      \<lparr>term_s = ''fever'', synonym = ''pyrexia'', weight = 1, context_s = Some ''symptom''\<rparr>,
      \<lparr>term_s = ''fever'', synonym = ''febrile'', weight = 9 / 10, context_s = Some ''symptom''\<rparr>,
      \<lparr>term_s = ''headache'', synonym = ''cephalgia'', weight = 1, context_s = Some ''symptom''\<rparr>,
      \<lparr>term_s = ''headache'', synonym = ''migraine'', weight = 7 / 10, context_s = Some ''symptom''\<rparr>,
      \<lparr>term_s = ''throwing up'', synonym = ''vomiting'', weight = 1, context_s = Some ''symptom''\<rparr>,
      \<lparr>term_s = ''throwing up'', synonym = ''emesis'', weight = 9 / 10, context_s = Some ''symptom''\<rparr>,
      \<lparr>term_s = ''cancer'', synonym = ''malignant'', weight = 9 / 10, context_s = Some ''condition''\<rparr>,
      \<lparr>term_s = ''cancer'', synonym = ''neoplasm'', weight = 1, context_s = Some ''condition''\<rparr>,
      \<lparr>term_s = ''cancer'', synonym = ''tumor'', weight = 8 / 10, context_s = Some ''condition''\<rparr>,
      \<lparr>term_s = ''cancer'', synonym = ''carcinoma'', weight = 9 / 10, context_s = Some ''condition''\<rparr>,
      \<lparr>term_s = ''infection'', synonym = ''infectious'', weight = 9 / 10, context_s = Some ''condition''\<rparr>,
      \<lparr>term_s = ''infection'', synonym = ''sepsis'', weight = 7 / 10, context_s = Some ''condition''\<rparr>,
      \<lparr>term_s = ''inflammation'', synonym = ''inflammatory'', weight = 1, context_s = Some ''condition''\<rparr>,
      \<lparr>term_s = ''inflammation'', synonym = ''itis'', weight = 8 / 10, context_s = Some ''condition''\<rparr>]"

section \<open>Search: \<^verbatim>\<open>ICD10Database.searchCodes\<close>\<close>

text \<open>
  The full-text index is a parameter: \<open>fts e\<close> is the list of the rows of
  \<^verbatim>\<open>icd10_codes\<close> whose index entries match the expression \<open>e\<close>, in rank order.
  The inner query keeps the first \<^verbatim>\<open>limit * 2\<close> of them, the outer query filters
  the joined rows (\<open>searchRows\<close>) and keeps the first \<^verbatim>\<open>limit\<close>. The category
  filter applies when it is present and not empty.
\<close>

definition searchRows ::
  "(string \<Rightarrow> ICD10Code list) \<Rightarrow> SearchPattern list \<Rightarrow> MedicalSynonym list \<Rightarrow> string
     \<Rightarrow> nat \<Rightarrow> string list option \<Rightarrow> bool \<Rightarrow> string option \<Rightarrow> ICD10Code list" where
  "searchRows fts patterns syn query limit category_filter billable_only effectiveDate =
     (let enhancedQuery = enhanceSearchQuery patterns syn query;
          ranked = take (limit * 2) (fts enhancedQuery)
      in filter (\<lambda>c.
           (case category_filter of
              None \<Rightarrow> True
            | Some cf \<Rightarrow> (if length cf > 0 then category c \<in> set cf else True))
           \<and> (if billable_only then is_billable c else True)
           \<and> dateFilter effectiveDate c) ranked)"

definition searchCodes ::
  "(string \<Rightarrow> ICD10Code list) \<Rightarrow> SearchPattern list \<Rightarrow> MedicalSynonym list \<Rightarrow> string
     \<Rightarrow> nat \<Rightarrow> string list option \<Rightarrow> bool \<Rightarrow> string option \<Rightarrow> ICD10Code list" where
  "searchCodes fts patterns syn query limit category_filter billable_only effectiveDate =
     take limit
       (searchRows fts patterns syn query limit category_filter billable_only effectiveDate)"

section \<open>Batch validation: \<^verbatim>\<open>ICD10Database.validateCodes\<close> and \<^verbatim>\<open>handleValidateBatch\<close>\<close>

text \<open>
  The interface \<^verbatim>\<open>ValidationResult\<close>; an absent optional property is \<open>None\<close>. The
  properties \<^verbatim>\<open>description\<close>, \<^verbatim>\<open>effective_date\<close> and \<^verbatim>\<open>end_date\<close> carry the
  suffix \<open>_r\<close>, the names without it being the columns of the code table.
\<close>

record ValidationResult =
  valid :: bool
  billable :: bool
  description_r :: "string option"
  effective_date_r :: "string option"
  end_date_r :: "string option"
  warning :: "string option"
  error :: "string option"

text \<open>
  \<^verbatim>\<open>SELECT ... FROM icd10_codes WHERE code IN (...)\<close> with the optional date clause.
\<close>

definition selectIn :: "store \<Rightarrow> string list \<Rightarrow> string option \<Rightarrow> ICD10Code list" where
  "selectIn st normalizedCodes effectiveDate =
     filter (\<lambda>r. code r \<in> set normalizedCodes \<and> dateFilter effectiveDate r) st"

text \<open>
  \<^verbatim>\<open>new Map(foundCodes.map(code => [code.code, code]))\<close>: a later entry with the
  same key replaces an earlier one.
\<close>

definition foundCodeMap :: "ICD10Code list \<Rightarrow> string \<Rightarrow> ICD10Code option" where
  "foundCodeMap foundCodes = map_of (rev (map (\<lambda>r. (code r, r)) foundCodes))"

text \<open>The two object literals of the loop body, with the warning added to the first.\<close>

definition validationEntry :: "bool \<Rightarrow> ICD10Code option \<Rightarrow> ValidationResult" where
  "validationEntry checkBillable found =
     (case found of
        Some codeData \<Rightarrow>
          \<lparr>valid = True, billable = is_billable codeData,
           description_r = Some (description codeData),
           effective_date_r = effective_date codeData, end_date_r = end_date codeData,
           warning = (if checkBillable \<and> \<not> is_billable codeData
                      then Some ''Code exists but is not billable'' else None),
           error = None\<rparr>
      | None \<Rightarrow>
          \<lparr>valid = False, billable = False, description_r = None, effective_date_r = None,
           end_date_r = None, warning = None, error = Some ''Code not found''\<rparr>)"

text \<open>
  The result object \<^verbatim>\<open>Record<string, ValidationResult>\<close> is the list of its
  properties: assigning to a key that exists replaces its value in place, assigning to
  a new key appends it.
\<close>

definition validateCodes ::
  "store \<Rightarrow> string list \<Rightarrow> bool \<Rightarrow> string option \<Rightarrow> (string \<times> ValidationResult) list" where
  "validateCodes st codes checkBillable effectiveDate =
     (if length codes = 0 then []
      else
        (let normalizedCodes = map toUpperCase codes;
             foundCodes = selectIn st normalizedCodes effectiveDate;
             fm = foundCodeMap foundCodes
         in fold (\<lambda>c result. AList.update c (validationEntry checkBillable (fm c)) result)
              normalizedCodes []))"



section \<open>The hierarchy tool: \<^verbatim>\<open>handleHierarchy\<close>\<close>

datatype ErrorCode = MethodNotFound | InvalidParams | InternalError

datatype McpError = McpError ErrorCode string

record HierarchyResponse =
  base_code :: ICD10Code
  direction :: HierarchyDirection
  max_depth :: nat
  total_results :: int
  results :: "ICD10Code list"

text \<open>\<^verbatim>\<open>s || ''\<close> on a string, and \<^verbatim>\<open>n || 2024\<close> on a number.\<close>

definition orEmpty :: "string \<Rightarrow> string" where
  "orEmpty s = (if s = [] then [] else s)"

definition orYear :: "int \<Rightarrow> int" where
  "orYear n = (if n = 0 then 2024 else n)"

text \<open>The placeholder base code built from the first result.\<close>

definition virtualBaseCode :: "string \<Rightarrow> ICD10Code \<Rightarrow> ICD10Code" where
  "virtualBaseCode c firstResult =
     \<lparr>code = c,
      description = c @ '' category codes'',
      category = (if length c \<ge> 3 then take 3 c else c),
      subcategory = Some c,
      chapter_code = orEmpty (chapter_code firstResult),
      chapter_name = orEmpty (chapter_name firstResult),
      is_billable = False,
      is_valid_primary = True,
      effective_date = effective_date firstResult,
      end_date = None,
      revision_year = orYear (revision_year firstResult)\<rparr>"

text \<open>
  \<^verbatim>\<open>handleHierarchy\<close>, on the parsed arguments; \<open>Inl\<close> is the thrown \<^verbatim>\<open>McpError\<close>.
\<close>

definition handleHierarchy ::
  "store \<Rightarrow> string \<Rightarrow> HierarchyDirection \<Rightarrow> nat \<Rightarrow> McpError + HierarchyResponse" where
  "handleHierarchy st c dir maxDepth =
     (let hierarchyResults = getHierarchy st c dir maxDepth;
          response = (\<lambda>baseCode.
            \<lparr>base_code = baseCode, direction = dir, max_depth = maxDepth,
             total_results = int (length hierarchyResults), results = hierarchyResults\<rparr>)
      in case getCode st c None of
           Some baseCode \<Rightarrow> Inr (response baseCode)
         | None \<Rightarrow>
             (case hierarchyResults of
                firstResult # rest \<Rightarrow> Inr (response (virtualBaseCode c firstResult))
              | [] \<Rightarrow>
                  Inl (McpError InvalidParams
                        (''No codes found for '' @ [CHR 0x27] @ c @ [CHR 0x27]
                         @ '' and no hierarchy available''))))"

text \<open>The store of the examples: the codes E11, E11.9, E11.21 and E11.22.\<close>

definition sampleCode :: "string \<Rightarrow> bool \<Rightarrow> ICD10Code" where
  "sampleCode c b =
     \<lparr>code = c, description = ''Type 2 diabetes mellitus'', category = take 3 c,
      subcategory = Some c, chapter_code = ''E00-E89'',
      chapter_name = ''Endocrine, nutritional and metabolic diseases'',
      is_billable = b, is_valid_primary = True, effective_date = Some ''2024-10-01'',
      end_date = None, revision_year = 2024\<rparr>"

definition sampleStore :: store where
  "sampleStore = [sampleCode ''E11'' False, sampleCode ''E11.9'' True,
                  sampleCode ''E11.21'' True, sampleCode ''E11.22'' True]"

text \<open>A full-text index for the examples: every sample row matches, in table order.\<close>

definition sampleFts :: "string \<Rightarrow> ICD10Code list" where
  "sampleFts e = sampleStore"


section \<open>The specification's wording\<close>



text \<open>
  Parents, in the words of the specification: strip the code from the right again
  and again while its length exceeds 1; look each strip up in the store and append it
  when it is found; stop at \<open>maxDepth\<close> results.
\<close>

function strips :: "string \<Rightarrow> string list" where
  "strips c = (if length c > 1 then stripRight c # strips (stripRight c) else [])"
  by pat_completeness auto
termination
proof (relation "measure length")
  show "wf (measure length)"
    by simp
next
  fix c :: string
  assume "1 < length c"
  then have ne: "c \<noteq> []"
    by auto
  have "\<And>j. lastIndexOf xs (CHR ''.'') = Some j \<Longrightarrow> j < length xs" for xs
    by (induction xs) (auto split: option.splits if_splits)
  with ne have "length (stripRight c) < length c"
    by (auto simp: stripRight_def split: option.splits)
  then show "(stripRight c, c) \<in> measure length"
    by simp
qed

declare strips.simps [simp del]

fun foundAlong :: "store \<Rightarrow> string list \<Rightarrow> ICD10Code list" where
  "foundAlong st [] = []"
| "foundAlong st (s # ss) =
     (if s \<noteq> [] then
        (case selectByCode st s of
           Some parent \<Rightarrow> parent # foundAlong st ss
         | None \<Rightarrow> foundAlong st ss)
      else foundAlong st ss)"

definition parentsSpec :: "store \<Rightarrow> string \<Rightarrow> nat \<Rightarrow> ICD10Code list" where
  "parentsSpec st c d = take d (foundAlong st (strips (toUpperCase c)))"

text \<open>
  The pattern phase, in the words of the specification: a pattern, concretized with a
  body part, matches when it is a substring of the normalized query; the candidates
  are the patterns in descending priority, each with every body part in turn.
\<close>

definition patternMatches :: "string \<Rightarrow> SearchPattern \<Rightarrow> string \<Rightarrow> bool" where
  "patternMatches lowerQuery p bodyPart =
     includesStr lowerQuery (toLowerCase (replaceFirst (pattern p) ''{BODYPART}'' bodyPart))"

definition patternCandidates :: "SearchPattern list \<Rightarrow> (SearchPattern \<times> string) list" where
  "patternCandidates tbl = concat (map (\<lambda>p. map (Pair p) bodyParts) (selectPatterns tbl))"

section \<open>Properties of the children: characters, prefixes and \<^verbatim>\<open>LIKE\<close>\<close>


lemma of_char_toUpperChar:
  "(of_char (toUpperChar c) :: nat) =
     (if 97 \<le> (of_char c :: nat) \<and> (of_char c :: nat) \<le> 122 then of_char c - 32 else of_char c)"
proof -
  have "(of_char c :: nat) < 256" by simp
  then show ?thesis
    by (auto simp add: toUpperChar_def less_eq_char_def)
qed

lemma char_eq_iff_nat: "a = b \<longleftrightarrow> (of_char a :: nat) = of_char b"
  by simp

lemma toUpperChar_idem: "toUpperChar (toUpperChar c) = toUpperChar c"
  by (auto simp: char_eq_iff_nat [of "toUpperChar (toUpperChar c)"] of_char_toUpperChar)







lemma startsWith_prefix: "startsWith s t \<longleftrightarrow> prefix t s"
  by (induction s t rule: startsWith.induct) auto



lemma toUpperCase_idem: "toUpperCase (toUpperCase s) = toUpperCase s"
  by (simp add: toUpperCase_def toUpperChar_idem)









section \<open>The store invariants\<close>

text \<open>
  The two assumptions on stores made in this theory are invariants of the only writer:
  the empty table has them and \<^verbatim>\<open>insertCode\<close> keeps them.
\<close>

lemma insertCode_canonicalIds:
  "canonicalIds [] \<and> (canonicalIds st \<longrightarrow> canonicalIds (insertCode st codeData))"
  by (simp add: canonicalIds_def insertCode_def Let_def list_all_iff toUpperCase_idem)

lemma insertCode_uniqueIds:
  "uniqueIds [] \<and> (uniqueIds st \<longrightarrow> uniqueIds (insertCode st codeData))"
  by (auto simp: uniqueIds_def insertCode_def Let_def distinct_map_filter)

section \<open>Properties of the siblings\<close>











section \<open>Properties of the parents loop\<close>

lemma lastIndexOf_less: "lastIndexOf s ch = Some i \<Longrightarrow> i < length s"
  by (induction s arbitrary: i) (auto split: option.splits if_splits)

lemma stripRight_shorter: "s \<noteq> [] \<Longrightarrow> length (stripRight s) < length s"
  by (auto simp: stripRight_def split: option.splits dest: lastIndexOf_less)

lemma stripRight_prefix: "prefix (stripRight s) s"
  by (auto simp: stripRight_def prefixeq_butlast take_is_prefix split: option.splits)

lemma stripRight_strict_prefix: "s \<noteq> [] \<Longrightarrow> strict_prefix (stripRight s) s"
  using stripRight_shorter [of s] stripRight_prefix [of s] by (auto simp: strict_prefix_def)

lemma parentsBody_shorter:
  "parentsGuard d s \<Longrightarrow> length (fst (parentsBody st s)) < length (fst s)"
proof -
  assume "parentsGuard d s"
  then have "fst s \<noteq> []"
    by (auto simp: parentsGuard_def)
  then have "length (stripRight (fst s)) < length (fst s)"
    by (rule stripRight_shorter)
  then show ?thesis
    by (auto simp: parentsBody_def Let_def split: option.splits)
qed

lemma parentsLoop_spec:
  "snd (parentsLoop st d (c, ps)) = ps @ take (d - length ps) (foundAlong st (strips c))"
proof (induction st d "(c, ps)" arbitrary: c ps rule: parentsLoop.induct)
  case (1 st d)
  show ?case
  proof (cases "parentsGuard d (c, ps)")
    case False
    then have "length c \<le> 1 \<or> d \<le> length ps"
      by (auto simp: parentsGuard_def)
    then have "take (d - length ps) (foundAlong st (strips c)) = []"
      by (auto simp: strips.simps [of c])
    with False show ?thesis
      by (subst parentsLoop.simps) simp
  next
    case True
    then have len: "length c > 1" and lt: "length ps < d"
      by (auto simp: parentsGuard_def)
    obtain c' ps' where b: "parentsBody st (c, ps) = (c', ps')"
      by (cases "parentsBody st (c, ps)")
    have c': "c' = stripRight c"
      using b by (auto simp: parentsBody_def Let_def split: option.splits if_splits)
    have st: "strips c = c' # strips c'"
      using len c' by (simp add: strips.simps [of c])
    have ih: "snd (parentsLoop st d (c', ps')) = ps' @ take (d - length ps') (foundAlong st (strips c'))"
      using "1.hyps" [OF True b] .
    have loop: "parentsLoop st d (c, ps) = parentsLoop st d (c', ps')"
      using True b by (subst parentsLoop.simps) simp
    show ?thesis
    proof (cases "c' \<noteq> [] \<and> selectByCode st c' \<noteq> None")
      case True
      then obtain p where p: "selectByCode st c' = Some p"
        by auto
      with True b c' have ps': "ps' = ps @ [p]"
        by (auto simp: parentsBody_def Let_def)
      have "d - length ps = Suc (d - length ps')"
        using lt ps' by simp
      with True p st ps' ih loop show ?thesis
        by simp
    next
      case False
      with b c' have ps': "ps' = ps"
        by (auto simp: parentsBody_def Let_def split: option.splits)
      from False have "foundAlong st (c' # strips c') = foundAlong st (strips c')"
        by (auto split: option.splits)
      with st ps' ih loop show ?thesis
        by simp
    qed
  qed
qed

lemma strips_strict_prefix: "s \<in> set (strips c) \<Longrightarrow> strict_prefix s c"
proof (induction c arbitrary: s rule: strips.induct)
  case (1 c)
  show ?case
  proof (cases "length c > 1")
    case False
    with "1.prems" show ?thesis
      by (simp add: strips.simps [of c])
  next
    case True
    then have ne: "c \<noteq> []"
      by auto
    from True "1.prems" have "s = stripRight c \<or> s \<in> set (strips (stripRight c))"
      by (simp add: strips.simps [of c])
    then show ?thesis
    proof
      assume "s = stripRight c"
      with ne show ?thesis
        by (simp add: stripRight_strict_prefix)
    next
      assume "s \<in> set (strips (stripRight c))"
      then have "strict_prefix s (stripRight c)"
        using "1.IH" True by simp
      with stripRight_strict_prefix [OF ne] show ?thesis
        by (meson prefix_order.less_trans)
    qed
  qed
qed

lemma strips_decreasing: "sorted_wrt (\<lambda>a b. length b < length a) (strips c)"
proof (induction c rule: strips.induct)
  case (1 c)
  show ?case
  proof (cases "length c > 1")
    case False
    then show ?thesis
      by (simp add: strips.simps [of c])
  next
    case True
    have "length s < length (stripRight c)" if "s \<in> set (strips (stripRight c))" for s
      using strips_strict_prefix [OF that] by (auto simp: strict_prefix_def prefix_def)
    with True "1.IH" show ?thesis
      by (simp add: strips.simps [of c])
  qed
qed

lemma selectByCode_Some: "selectByCode st s = Some r \<Longrightarrow> r \<in> set st \<and> code r = s"
  by (auto simp: selectByCode_def find_Some_iff)

lemma foundAlong_member: "r \<in> set (foundAlong st ss) \<Longrightarrow> r \<in> set st \<and> code r \<in> set ss"
  by (induction ss) (auto split: if_splits option.splits dest: selectByCode_Some)

lemma foundAlong_decreasing:
  "sorted_wrt (\<lambda>a b. length b < length a) ss
   \<Longrightarrow> sorted_wrt (\<lambda>a b. length (code b) < length (code a)) (foundAlong st ss)"
proof (induction ss)
  case Nil
  then show ?case by simp
next
  case (Cons s ss)
  then have tl: "sorted_wrt (\<lambda>a b. length (code b) < length (code a)) (foundAlong st ss)"
    and hd: "\<forall>x \<in> set ss. length x < length s"
    by simp_all
  show ?case
  proof (cases "s \<noteq> [] \<and> selectByCode st s \<noteq> None")
    case True
    then obtain p where p: "selectByCode st s = Some p"
      by auto
    then have "code p = s"
      by (simp add: selectByCode_Some)
    with hd have "\<forall>r \<in> set (foundAlong st ss). length (code r) < length (code p)"
      by (auto dest: foundAlong_member)
    with True p tl show ?thesis
      by simp
  next
    case False
    with tl show ?thesis
      by (auto split: option.splits)
  qed
qed

text \<open>
  Claim C4. For every code \<open>c\<close>, depth \<open>d\<close> and store, the parents of \<open>c\<close> are the
  stored codes found for the successive strips of the upper-cased \<open>c\<close>, strips that
  are not stored being skipped, cut off after \<open>d\<close> results; the result has at most
  \<open>d\<close> elements, each a stored code whose id is a proper prefix of the code, nearest
  (longest) first; over the store E11, E11.9, E11.21, E11.22 the parents of E11.9 at
  depth 2 are exactly E11.
\<close>

theorem parents_by_stripping:
  "getHierarchy st c Parents d = parentsSpec st c d
   \<and> length (getHierarchy st c Parents d) \<le> d
   \<and> sorted_wrt (\<lambda>a b. length (code b) < length (code a)) (getHierarchy st c Parents d)
   \<and> (\<forall>r \<in> set (getHierarchy st c Parents d).
         r \<in> set st \<and> strict_prefix (code r) (toUpperCase c))
   \<and> map code (getHierarchy sampleStore ''E11.9'' Parents 2) = [''E11'']"
proof -
  have eq: "getHierarchy st c Parents d = parentsSpec st c d"
    by (simp add: getHierarchy_def Let_def parentsSpec_def parentsLoop_spec)
  have len: "length (parentsSpec st c d) \<le> d"
    by (simp add: parentsSpec_def)
  have "sorted_wrt (\<lambda>a b. length (code b) < length (code a))
          (foundAlong st (strips (toUpperCase c)))"
    by (intro foundAlong_decreasing strips_decreasing)
  then have srt: "sorted_wrt (\<lambda>a b. length (code b) < length (code a)) (parentsSpec st c d)"
    unfolding parentsSpec_def by (rule sorted_wrt_take)
  have mem: "\<forall>r \<in> set (parentsSpec st c d). r \<in> set st \<and> strict_prefix (code r) (toUpperCase c)"
  proof
    fix r
    assume "r \<in> set (parentsSpec st c d)"
    then have "r \<in> set (foundAlong st (strips (toUpperCase c)))"
      unfolding parentsSpec_def by (rule in_set_takeD)
    then have "r \<in> set st" and "code r \<in> set (strips (toUpperCase c))"
      by (simp_all add: foundAlong_member)
    then show "r \<in> set st \<and> strict_prefix (code r) (toUpperCase c)"
      by (simp add: strips_strict_prefix)
  qed
  have ex: "map code (getHierarchy sampleStore ''E11.9'' Parents 2) = [''E11'']"
    by code_simp
  from eq len srt mem ex show ?thesis
    by (simp only: simp_thms)
qed

theorem parents_by_stripping_witness:
  "sampleCode ''E11'' False \<in> set (getHierarchy sampleStore ''E11.9'' Parents 2)
   \<and> sampleCode ''E11'' False \<in> set sampleStore
   \<and> strict_prefix (code (sampleCode ''E11'' False)) (toUpperCase ''E11.9'')
   \<and> getHierarchy sampleStore ''E11.9'' Parents 2 = parentsSpec sampleStore ''E11.9'' 2"
proof -
  have m: "sampleCode ''E11'' False \<in> set (getHierarchy sampleStore ''E11.9'' Parents 2)"
    by code_simp
  with parents_by_stripping [of sampleStore "''E11.9''" 2] show ?thesis
    by blast
qed

lemma parentsLoop_while:
  "while_option (parentsGuard d) (parentsBody st) s = Some (parentsLoop st d s)"
proof (induction st d s rule: parentsLoop.induct)
  case (1 st d s)
  show ?case
  proof (cases "parentsGuard d s")
    case True
    with "1.IH" show ?thesis
      by (subst while_option_unfold, subst parentsLoop.simps) simp
  next
    case False
    then show ?thesis
      by (subst while_option_unfold, subst parentsLoop.simps) simp
  qed
qed

lemma parents_exit_reached:
  "\<exists>k \<le> length (fst s). \<not> parentsGuard d ((parentsBody st ^^ k) s)"
proof (induction "length (fst s)" arbitrary: s rule: less_induct)
  case less
  show ?case
  proof (cases "parentsGuard d s")
    case False
    then have "\<not> parentsGuard d ((parentsBody st ^^ 0) s)"
      by simp
    then show ?thesis
      by blast
  next
    case True
    then have sh: "length (fst (parentsBody st s)) < length (fst s)"
      by (rule parentsBody_shorter)
    from less [OF sh] obtain k where k: "k \<le> length (fst (parentsBody st s))"
      and ex: "\<not> parentsGuard d ((parentsBody st ^^ k) (parentsBody st s))"
      by blast
    from ex have "\<not> parentsGuard d ((parentsBody st ^^ Suc k) s)"
      by (simp add: funpow_swap1)
    moreover from k sh have "Suc k \<le> length (fst s)"
      by simp
    ultimately show ?thesis
      by blast
  qed
qed

lemma length_toUpperCase: "length (toUpperCase c) = length c"
  by (simp add: toUpperCase_def)

text \<open>
  Claim C5. Every strip of a non-empty string is strictly shorter, so every iteration
  of the parents loop shortens \<^verbatim>\<open>current\<close>; the loop, as a \<open>while\<close> that may diverge,
  returns for every code, depth and store, reaching its exit condition within as many
  iterations as the code has characters; a single-character code has no parents.
\<close>

theorem parents_loop_terminates:
  "(s \<noteq> [] \<longrightarrow> length (stripRight s) < length s)
   \<and> (parentsGuard d (cur, ps) \<longrightarrow> length (fst (parentsBody st (cur, ps))) < length cur)
   \<and> while_option (parentsGuard d) (parentsBody st) (toUpperCase c, [])
       = Some (parentsLoop st d (toUpperCase c, []))
   \<and> (\<exists>k \<le> length c. \<not> parentsGuard d ((parentsBody st ^^ k) (toUpperCase c, [])))
   \<and> (length c = 1 \<longrightarrow> getHierarchy st c Parents d = [])"
proof -
  have a: "s \<noteq> [] \<longrightarrow> length (stripRight s) < length s"
    by (simp add: stripRight_shorter)
  have b: "parentsGuard d (cur, ps) \<longrightarrow> length (fst (parentsBody st (cur, ps))) < length cur"
    using parentsBody_shorter [of d "(cur, ps)" st] by simp
  have w: "while_option (parentsGuard d) (parentsBody st) (toUpperCase c, [])
       = Some (parentsLoop st d (toUpperCase c, []))"
    by (rule parentsLoop_while)
  have e: "\<exists>k \<le> length c. \<not> parentsGuard d ((parentsBody st ^^ k) (toUpperCase c, []))"
    using parents_exit_reached [of "(toUpperCase c, [])" d st] by (simp add: length_toUpperCase)
  have one: "length c = 1 \<longrightarrow> getHierarchy st c Parents d = []"
    by (simp add: getHierarchy_def Let_def parentsLoop.simps [of _ _ "(toUpperCase c, [])"] parentsGuard_def length_toUpperCase)
  from a b w e one show ?thesis
    by (simp only: simp_thms)
qed

theorem parents_loop_terminates_witness:
  "''E11.9'' \<noteq> [] \<and> length (stripRight ''E11.9'') < length ''E11.9''
   \<and> parentsGuard 2 (''E11.9'', [])
   \<and> length (fst (parentsBody sampleStore (''E11.9'', []))) < length ''E11.9''
   \<and> length ''E'' = 1 \<and> getHierarchy sampleStore ''E'' Parents 2 = []"
proof -
  have g: "parentsGuard 2 (''E11.9'', [])"
    by (simp add: parentsGuard_def)
  have l: "length ''E'' = 1"
    by simp
  from parents_loop_terminates [of "''E11.9''" 2 "''E11.9''" "[]" sampleStore "''E''"] g l
  show ?thesis
    by simp
qed

section \<open>Properties of batch validation\<close>

lemma map_of_fold_update:
  "map_of (fold (\<lambda>c res. AList.update c (f c) res) ks acc) k
   = (if k \<in> set ks then Some (f k) else map_of acc k)"
  by (induction ks arbitrary: acc) (auto simp: update_conv')

lemma distinct_fold_update:
  "distinct (map fst acc) \<Longrightarrow> distinct (map fst (fold (\<lambda>c res. AList.update c (f c) res) ks acc))"
  by (induction ks arbitrary: acc) (auto simp: distinct_update)

lemma keys_fold_update:
  "fst ` set (fold (\<lambda>c res. AList.update c (f c) res) ks acc) = set ks \<union> fst ` set acc"
  by (induction ks arbitrary: acc) (auto simp: dom_update)

lemma validateCodes_lookup:
  "map_of (validateCodes st codes cb eff) k
   = (if k \<in> toUpperCase ` set codes
      then Some (validationEntry cb (foundCodeMap (selectIn st (map toUpperCase codes) eff) k))
      else None)"
  by (simp add: validateCodes_def Let_def map_of_fold_update)

lemma validateCodes_keys: "fst ` set (validateCodes st codes cb eff) = toUpperCase ` set codes"
  by (simp add: validateCodes_def Let_def keys_fold_update)

lemma validateCodes_distinct: "distinct (map fst (validateCodes st codes cb eff))"
  by (simp add: validateCodes_def Let_def distinct_fold_update)

lemma foundCodeMap_None:
  "foundCodeMap rows k = None \<longleftrightarrow> (\<forall>r \<in> set rows. code r \<noteq> k)"
  by (auto simp: foundCodeMap_def map_of_eq_None_iff image_iff)

lemma foundCodeMap_Some:
  assumes "distinct (map code rows)" and "r \<in> set rows"
  shows "foundCodeMap rows (code r) = Some r"
proof -
  have "map fst (rev (map (\<lambda>r. (code r, r)) rows)) = rev (map code rows)"
    by (simp add: rev_map comp_def)
  with assms(1) have "distinct (map fst (rev (map (\<lambda>r. (code r, r)) rows)))"
    by simp
  moreover have "(code r, r) \<in> set (rev (map (\<lambda>r. (code r, r)) rows))"
    using assms(2) by auto
  ultimately show ?thesis
    unfolding foundCodeMap_def by (rule map_of_is_SomeI)
qed

lemma selectIn_distinct: "uniqueIds st \<Longrightarrow> distinct (map code (selectIn st ks eff))"
  by (simp add: uniqueIds_def selectIn_def distinct_map_filter)

text \<open>
  Claim C7. For every batch and every code \<open>c\<close> of it, the result maps the upper-cased
  \<open>c\<close> to the valid entry built from the stored row (billable flag, description and
  the two dates of the row, and the warning exactly when the billable check is
  requested and the row is not billable) when the query finds a row with that id, and
  to the entry \<open>valid = False\<close>, \<open>billable = False\<close>, \<open>error = Code not found\<close> when
  it finds none; the keys of the result are exactly the upper-cased input codes. The
  store has \<^verbatim>\<open>code\<close> as its primary key.
\<close>

theorem validate_entries:
  assumes "uniqueIds st" and "c \<in> set codes"
  shows "(\<forall>r \<in> set st. code r = toUpperCase c \<and> dateFilter eff r \<longrightarrow>
            map_of (validateCodes st codes cb eff) (toUpperCase c)
            = Some \<lparr>valid = True, billable = is_billable r,
                    description_r = Some (description r),
                    effective_date_r = effective_date r, end_date_r = end_date r,
                    warning = (if cb \<and> \<not> is_billable r
                               then Some ''Code exists but is not billable'' else None),
                    error = None\<rparr>)
         \<and> ((\<forall>r \<in> set st. code r = toUpperCase c \<longrightarrow> \<not> dateFilter eff r) \<longrightarrow>
            map_of (validateCodes st codes cb eff) (toUpperCase c)
            = Some \<lparr>valid = False, billable = False, description_r = None,
                    effective_date_r = None, end_date_r = None, warning = None,
                    error = Some ''Code not found''\<rparr>)
         \<and> fst ` set (validateCodes st codes cb eff) = toUpperCase ` set codes
         \<and> distinct (map fst (validateCodes st codes cb eff))"
proof -
  let ?k = "toUpperCase c"
  let ?rows = "selectIn st (map toUpperCase codes) eff"
  have look: "map_of (validateCodes st codes cb eff) ?k
      = Some (validationEntry cb (foundCodeMap ?rows ?k))"
    using assms(2) by (simp add: validateCodes_lookup)
  have found: "map_of (validateCodes st codes cb eff) ?k
            = Some \<lparr>valid = True, billable = is_billable r,
                    description_r = Some (description r),
                    effective_date_r = effective_date r, end_date_r = end_date r,
                    warning = (if cb \<and> \<not> is_billable r
                               then Some ''Code exists but is not billable'' else None),
                    error = None\<rparr>"
    if r: "r \<in> set st" "code r = ?k" "dateFilter eff r" for r
  proof -
    have "r \<in> set ?rows"
      using r assms(2) by (simp add: selectIn_def)
    with selectIn_distinct [OF assms(1)] have "foundCodeMap ?rows (code r) = Some r"
      by (rule foundCodeMap_Some)
    with look r(2) show ?thesis
      by (simp add: validationEntry_def)
  qed
  have missing: "map_of (validateCodes st codes cb eff) ?k
            = Some \<lparr>valid = False, billable = False, description_r = None,
                    effective_date_r = None, end_date_r = None, warning = None,
                    error = Some ''Code not found''\<rparr>"
    if "\<forall>r \<in> set st. code r = ?k \<longrightarrow> \<not> dateFilter eff r"
  proof -
    have "foundCodeMap ?rows ?k = None"
      using that by (auto simp: foundCodeMap_None selectIn_def)
    with look show ?thesis
      by (simp add: validationEntry_def)
  qed
  from found missing validateCodes_keys [of st codes cb eff]
    validateCodes_distinct [of st codes cb eff]
  show ?thesis
    by blast
qed


theorem validate_entries_witness:
  "uniqueIds sampleStore \<and> ''e11'' \<in> set [''e11'', ''FAKE123''] \<and> ''FAKE123'' \<in> set [''e11'', ''FAKE123'']
   \<and> sampleCode ''E11'' False \<in> set sampleStore
   \<and> code (sampleCode ''E11'' False) = toUpperCase ''e11''
   \<and> dateFilter None (sampleCode ''E11'' False)
   \<and> map_of (validateCodes sampleStore [''e11'', ''FAKE123''] True None) ''E11''
       = Some \<lparr>valid = True, billable = False,
               description_r = Some ''Type 2 diabetes mellitus'',
               effective_date_r = Some ''2024-10-01'', end_date_r = None,
               warning = Some ''Code exists but is not billable'', error = None\<rparr>
   \<and> find (\<lambda>r. code r = toUpperCase ''FAKE123'') sampleStore = None
   \<and> map_of (validateCodes sampleStore [''e11'', ''FAKE123''] True None) ''FAKE123''
       = Some \<lparr>valid = False, billable = False, description_r = None,
               effective_date_r = None, end_date_r = None, warning = None,
               error = Some ''Code not found''\<rparr>"
proof -
  have u: "uniqueIds sampleStore"
    by code_simp
  have m1: "''e11'' \<in> set [''e11'', ''FAKE123'']" and m2: "''FAKE123'' \<in> set [''e11'', ''FAKE123'']"
    by simp_all
  have r: "sampleCode ''E11'' False \<in> set sampleStore"
    by (simp add: sampleStore_def)
  have up1: "toUpperCase ''e11'' = ''E11''" and up2: "toUpperCase ''FAKE123'' = ''FAKE123''"
    by code_simp+
  have c: "code (sampleCode ''E11'' False) = toUpperCase ''e11''"
    by (simp add: up1 sampleCode_def)
  have d: "dateFilter None (sampleCode ''E11'' False)"
    by (simp add: dateFilter_def)
  have none: "\<forall>r \<in> set sampleStore. code r = toUpperCase ''FAKE123'' \<longrightarrow> \<not> dateFilter None r"
    by (simp add: up2 sampleStore_def sampleCode_def)
  have e1: "map_of (validateCodes sampleStore [''e11'', ''FAKE123''] True None) (toUpperCase ''e11'')
       = Some \<lparr>valid = True, billable = is_billable (sampleCode ''E11'' False),
               description_r = Some (description (sampleCode ''E11'' False)),
               effective_date_r = effective_date (sampleCode ''E11'' False),
               end_date_r = end_date (sampleCode ''E11'' False),
               warning = (if True \<and> \<not> is_billable (sampleCode ''E11'' False)
                          then Some ''Code exists but is not billable'' else None),
               error = None\<rparr>"
    using validate_entries [OF u m1, of None True] r c d by blast
  have e2: "map_of (validateCodes sampleStore [''e11'', ''FAKE123''] True None) (toUpperCase ''FAKE123'')
       = Some \<lparr>valid = False, billable = False, description_r = None,
               effective_date_r = None, end_date_r = None, warning = None,
               error = Some ''Code not found''\<rparr>"
    using validate_entries [OF u m2, of None True] none by blast
  from e1 have e1': "map_of (validateCodes sampleStore [''e11'', ''FAKE123''] True None) ''E11''
       = Some \<lparr>valid = True, billable = False,
               description_r = Some ''Type 2 diabetes mellitus'',
               effective_date_r = Some ''2024-10-01'', end_date_r = None,
               warning = Some ''Code exists but is not billable'', error = None\<rparr>"
    by (simp add: up1 sampleCode_def)
  from e2 have e2': "map_of (validateCodes sampleStore [''e11'', ''FAKE123''] True None) ''FAKE123''
       = Some \<lparr>valid = False, billable = False, description_r = None,
               effective_date_r = None, end_date_r = None, warning = None,
               error = Some ''Code not found''\<rparr>"
    by (simp add: up2)
  have nf: "find (\<lambda>r. code r = toUpperCase ''FAKE123'') sampleStore = None"
    using none by (simp add: find_None_iff dateFilter_def)
  from u m1 m2 r c d nf e1' e2' show ?thesis
    by (simp only: simp_thms)
qed




section \<open>The validity window and the hierarchy tool\<close>






text \<open>
  The empty string is admitted by the request schema and is not a supplied date for
  the guard: the record E11.9, in effect from 2024-10-01, is returned by lookup, batch
  validation and search at the empty date.
\<close>

lemma effective_date_empty_unfiltered:
  "\<not> inEffect (sampleCode ''E11.9'' True) []
   \<and> getCode sampleStore ''E11.9'' (Some []) = Some (sampleCode ''E11.9'' True)
   \<and> map_option valid (map_of (validateCodes sampleStore [''E11.9''] False (Some [])) ''E11.9'')
       = Some True
   \<and> sampleCode ''E11.9'' True
       \<in> set (searchCodes sampleFts seedPatterns seedSynonyms ''diabetes'' 20 None False (Some []))"
  by code_simp

text \<open>
  Claim C10. When the queried code is not stored, the hierarchy tool fails, with an
  invalid-parameter error, exactly when the navigation result is empty; when the
  result is not empty it succeeds with a base code whose code is the queried code,
  whose description is the queried code followed by \<^verbatim>\<open> category codes\<close>, that is not
  billable, and whose chapter code and name are those of the first result.
\<close>

theorem hierarchy_base_code:
  assumes "getCode st c None = None"
  shows "((\<exists>msg. handleHierarchy st c dir d = Inl (McpError InvalidParams msg))
            \<longleftrightarrow> getHierarchy st c dir d = [])
         \<and> (isl (handleHierarchy st c dir d) \<longleftrightarrow> getHierarchy st c dir d = [])
         \<and> (\<forall>firstResult rest. getHierarchy st c dir d = firstResult # rest \<longrightarrow>
              (\<exists>resp. handleHierarchy st c dir d = Inr resp
                 \<and> code (base_code resp) = c
                 \<and> description (base_code resp) = c @ '' category codes''
                 \<and> \<not> is_billable (base_code resp)
                 \<and> chapter_code (base_code resp) = chapter_code firstResult
                 \<and> chapter_name (base_code resp) = chapter_name firstResult
                 \<and> results resp = firstResult # rest))"
  using assms
  by (cases "getHierarchy st c dir d")
     (simp_all add: handleHierarchy_def Let_def virtualBaseCode_def orEmpty_def)

theorem hierarchy_base_code_witness:
  "getCode sampleStore ''E11.2'' None = None
   \<and> getHierarchy sampleStore ''E11.2'' Children 2 = [sampleCode ''E11.21'' True, sampleCode ''E11.22'' True]
   \<and> (\<exists>resp. handleHierarchy sampleStore ''E11.2'' Children 2 = Inr resp
         \<and> description (base_code resp) = ''E11.2 category codes''
         \<and> \<not> is_billable (base_code resp)
         \<and> chapter_code (base_code resp) = ''E00-E89'')
   \<and> getCode sampleStore ''Z99'' None = None
   \<and> getHierarchy sampleStore ''Z99'' Children 2 = []
   \<and> (\<exists>msg. handleHierarchy sampleStore ''Z99'' Children 2 = Inl (McpError InvalidParams msg))"
proof -
  have a: "getCode sampleStore ''E11.2'' None = None" and b: "getCode sampleStore ''Z99'' None = None"
    by code_simp+
  have h1: "getHierarchy sampleStore ''E11.2'' Children 2
      = [sampleCode ''E11.21'' True, sampleCode ''E11.22'' True]"
    by code_simp
  have h2: "getHierarchy sampleStore ''Z99'' Children 2 = []"
    by code_simp
  from hierarchy_base_code [OF a, of Children 2] h1
  obtain resp where "handleHierarchy sampleStore ''E11.2'' Children 2 = Inr resp"
    and "description (base_code resp) = ''E11.2'' @ '' category codes''"
    and "\<not> is_billable (base_code resp)"
    and "chapter_code (base_code resp) = chapter_code (sampleCode ''E11.21'' True)"
    by blast
  then have e1: "\<exists>resp. handleHierarchy sampleStore ''E11.2'' Children 2 = Inr resp
         \<and> description (base_code resp) = ''E11.2 category codes''
         \<and> \<not> is_billable (base_code resp)
         \<and> chapter_code (base_code resp) = ''E00-E89''"
    by (simp add: sampleCode_def)
  from hierarchy_base_code [OF b, of Children 2] h2
  have e2: "\<exists>msg. handleHierarchy sampleStore ''Z99'' Children 2 = Inl (McpError InvalidParams msg)"
    by blast
  from a h1 e1 b h2 e2 show ?thesis
    by (simp only: simp_thms)
qed

section \<open>Properties of query expansion\<close>

lemma replaceFirst_absent: "\<not> includesStr s pat \<Longrightarrow> replaceFirst s pat rep = s"
  by (induction s) auto

lemma includesStr_first: "includesStr s (x # xs) \<Longrightarrow> includesStr s [x]"
proof (induction s)
  case Nil
  then show ?case by simp
next
  case (Cons c cs)
  then show ?case
    by (cases "startsWith (c # cs) (x # xs)") auto
qed

lemma replaceFirst_no_brace:
  "\<not> includesStr pat ''{'' \<Longrightarrow> replaceFirst pat ''{BODYPART}'' bp = pat"
  using includesStr_first [of pat "CHR ''{''" "''BODYPART}''"]
  by (intro replaceFirst_absent) auto

lemma matchBodyParts_find:
  "matchBodyParts q (pattern p) (expansion p) bps
   = map_option (\<lambda>bp. replaceFirst (expansion p) ''{BODYPART}'' bp) (find (patternMatches q p) bps)"
  by (induction bps) (simp_all add: patternMatches_def Let_def)

lemma find_append_cases:
  "find P (xs @ ys) = (case find P xs of Some x \<Rightarrow> Some x | None \<Rightarrow> find P ys)"
  by (induction xs) auto

lemma find_map_Pair:
  "find (\<lambda>(p, bp). M p bp) (map (Pair p) bps) = map_option (Pair p) (find (M p) bps)"
  by (induction bps) auto

lemma arm_bodyPart: "''arm'' \<in> set bodyParts"
  by (simp add: bodyParts_def)

lemma matchPatterns_find:
  "matchPatterns q ps
   = map_option (\<lambda>(p, bp). replaceFirst (expansion p) ''{BODYPART}'' bp)
       (find (\<lambda>(p, bp). patternMatches q p bp) (concat (map (\<lambda>p. map (Pair p) bodyParts) ps)))"
proof (induction ps)
  case Nil
  then show ?case by simp
next
  case (Cons p ps)
  show ?case
  proof (cases "find (patternMatches q p) bodyParts")
    case (Some bp)
    then show ?thesis
      by (simp add: matchBodyParts_find find_append_cases find_map_Pair)
  next
    case None
    then have "\<not> patternMatches q p ''arm''"
      using arm_bodyPart by (auto simp: find_None_iff)
    then have nb: "(\<not> includesStr (pattern p) ''{'' \<and> includesStr q (toLowerCase (pattern p))) = False"
      by (auto simp: patternMatches_def replaceFirst_no_brace)
    have "matchPatterns q (p # ps) = matchPatterns q ps"
      using None by (simp add: matchBodyParts_find nb)
    with None Cons.IH show ?thesis
      by (simp add: find_append_cases find_map_Pair)
  qed
qed

lemma find_concat_Pair:
  "find (\<lambda>(p, bp). M p bp) (concat (map (\<lambda>p. map (Pair p) bps) ps))
   = (case find (\<lambda>p. \<exists>bp \<in> set bps. M p bp) ps of
        None \<Rightarrow> None
      | Some p \<Rightarrow> map_option (Pair p) (find (M p) bps))"
proof (induction ps)
  case Nil
  then show ?case by simp
next
  case (Cons p ps)
  show ?case
  proof (cases "\<exists>bp \<in> set bps. M p bp")
    case True
    then obtain bp where "find (M p) bps = Some bp"
      by (cases "find (M p) bps") (auto simp: find_None_iff)
    with True show ?thesis
      by (simp add: find_append_cases find_map_Pair)
  next
    case False
    then have "find (M p) bps = None"
      by (simp add: find_None_iff)
    with False Cons.IH show ?thesis
      by (simp add: find_append_cases find_map_Pair)
  qed
qed

lemma find_sort_key_least:
  fixes f :: "'a \<Rightarrow> int"
  assumes "find Q (sort_key f xs) = Some x" and "y \<in> set xs" and "Q y"
  shows "f x \<le> f y"
proof -
  let ?ys = "sort_key f xs"
  from assms(1) obtain i where i: "i < length ?ys" "?ys ! i = x" "\<forall>j < i. \<not> Q (?ys ! j)"
    by (auto simp: find_Some_iff)
  from assms(2) obtain k where k: "k < length ?ys" "?ys ! k = y"
    by (metis in_set_conv_nth set_sort)
  with assms(3) i(3) have "i \<le> k"
    by (meson not_le_imp_less)
  moreover have "sorted (map f ?ys)"
    by simp
  ultimately have "map f ?ys ! i \<le> map f ?ys ! k"
    using k(1) by (simp add: sorted_iff_nth_mono)
  with i k show ?thesis
    by simp
qed

text \<open>
  Precedence of the pattern phase. When some pattern, concretized with some body part,
  occurs in the normalized query, the result is the expansion of the first matching
  candidate, with the first occurrence of the placeholder replaced by that body part;
  no other pattern that matches has a higher priority, and the synonym table plays no
  part in the result.
\<close>

lemma pattern_precedence:
  assumes "\<exists>p \<in> set tbl. \<exists>bp \<in> set bodyParts. patternMatches (trim (toLowerCase query)) p bp"
  shows "\<exists>p bp. find (\<lambda>(p, bp). patternMatches (trim (toLowerCase query)) p bp) (patternCandidates tbl)
                  = Some (p, bp)
           \<and> p \<in> set tbl \<and> bp \<in> set bodyParts
           \<and> patternMatches (trim (toLowerCase query)) p bp
           \<and> enhanceSearchQuery tbl syn query = replaceFirst (expansion p) ''{BODYPART}'' bp
           \<and> (\<forall>p' \<in> set tbl. (\<exists>bp' \<in> set bodyParts. patternMatches (trim (toLowerCase query)) p' bp')
                 \<longrightarrow> priority p' \<le> priority p)"
proof -
  let ?q = "trim (toLowerCase query)"
  let ?Q = "\<lambda>p. \<exists>bp \<in> set bodyParts. patternMatches ?q p bp"
  from assms have "\<exists>p \<in> set (selectPatterns tbl). ?Q p"
    by (simp add: selectPatterns_def)
  then obtain p where p: "find ?Q (selectPatterns tbl) = Some p"
    by (cases "find ?Q (selectPatterns tbl)") (auto simp: find_None_iff)
  then have pq: "?Q p" and "p \<in> set (selectPatterns tbl)"
    by (auto simp: find_Some_iff)
  then have pin: "p \<in> set tbl"
    by (simp add: selectPatterns_def)
  from pq obtain bp where bp: "find (patternMatches ?q p) bodyParts = Some bp"
    by (cases "find (patternMatches ?q p) bodyParts") (auto simp: find_None_iff)
  then have bpin: "bp \<in> set bodyParts" and m: "patternMatches ?q p bp"
    by (auto simp: find_Some_iff)
  have f: "find (\<lambda>(p, bp). patternMatches ?q p bp) (patternCandidates tbl) = Some (p, bp)"
    unfolding patternCandidates_def by (simp add: find_concat_Pair p bp)
  then have "matchPatterns ?q (selectPatterns tbl) = Some (replaceFirst (expansion p) ''{BODYPART}'' bp)"
    by (simp add: matchPatterns_find patternCandidates_def)
  then have e: "enhanceSearchQuery tbl syn query = replaceFirst (expansion p) ''{BODYPART}'' bp"
    by (simp add: enhanceSearchQuery_def Let_def)
  have "priority p' \<le> priority p" if "p' \<in> set tbl" "?Q p'" for p'
    using find_sort_key_least [of ?Q "\<lambda>p. - priority p" tbl p p'] p that
    by (simp add: selectPatterns_def)
  with f pin bpin m e show ?thesis
    by blast
qed








text \<open>
  Claim C1 at the query \<^verbatim>\<open>pain in arm\<close>, with the seeded patterns: the pattern
  \<^verbatim>\<open>pain in {BODYPART}\<close>, concretized with \<^verbatim>\<open>arm\<close>, is a substring of the query, and
  the result is its expansion with only the first of the two placeholders replaced,
  not the expansion with the value substituted.
\<close>

theorem pattern_substitution_first_only:
  "find (\<lambda>(p, bp). patternMatches (trim (toLowerCase ''pain in arm'')) p bp)
       (patternCandidates seedPatterns)
     = Some (\<lparr>pattern = ''pain in {BODYPART}'',
              expansion = ''{BODYPART} pain OR {BODYPART} algia'', priority = 8\<rparr>, ''arm'')
   \<and> enhanceSearchQuery seedPatterns seedSynonyms ''pain in arm'' = ''arm pain OR {BODYPART} algia''
   \<and> enhanceSearchQuery seedPatterns seedSynonyms ''pain in arm'' \<noteq> ''arm pain OR arm algia''"
  by code_simp

text \<open>The example of the query \<^verbatim>\<open>broken arm\<close>, and the term phase that it does not reach.\<close>

lemma broken_arm_example:
  "enhanceSearchQuery seedPatterns seedSynonyms ''broken arm'' = ''fracture arm''
   \<and> joinOr (expandWords seedSynonyms (splitWhitespace (trim (toLowerCase ''broken arm''))) [])
       = ''broken OR fracture OR fractured OR arm''"
  by code_simp

end
